theory Spec2Isabelle
  imports Main "HOL-Library.Sublist" "HOL-Library.Char_ord" "HOL-Library.List_Lexorder"
begin

section \<open>Python strings\<close>

text \<open>
  A Python \<open>str\<close> is modelled as a \<open>string\<close> whose characters are the code points
  below 256, one \<open>char\<close> per code point. The library operations the scorers use
  (\<open>str.strip\<close>, \<open>str.lower\<close>, \<open>str.replace\<close>, \<open>str.endswith\<close>) are written out
  for that range.
\<close>

definition py_isspace :: "char \<Rightarrow> bool" where
  \<comment> \<open>\<open>str.isspace\<close> on one character; also the class \<open>\s\<close> of \<open>re\<close> on \<open>str\<close> patterns\<close>
  "py_isspace c = (let n = (of_char c :: nat) in
     (9 \<le> n \<and> n \<le> 13) \<or> (28 \<le> n \<and> n \<le> 32) \<or> n = 133 \<or> n = 160)"

definition py_lower_char :: "char \<Rightarrow> char" where
  "py_lower_char c = (let n = (of_char c :: nat) in
     if (65 \<le> n \<and> n \<le> 90) \<or> (192 \<le> n \<and> n \<le> 222 \<and> n \<noteq> 215)
     then char_of (n + 32) else c)"

definition py_lower :: "string \<Rightarrow> string" where
  "py_lower s = map py_lower_char s"



definition py_endswith :: "string \<Rightarrow> string \<Rightarrow> bool" where
  \<comment> \<open>\<open>s.endswith(t)\<close>\<close>
  "py_endswith s t = suffix t s"


section \<open>batch\_score.py: slugs and the report lookup\<close>




record player =
  team_name :: string
  team_slug :: string
  first_name :: string
  last_name :: string
  player_slug :: string



text \<open>
  A path is its directory (the components from the root) and its file name.
  \<open>Path.suffix\<close> and \<open>Path.stem\<close> split the name at its last dot, unless that dot is
  the first or the last character of the name.
\<close>

type_synonym path = "string list \<times> string"

definition rfind_dot :: "string \<Rightarrow> nat option" where
  \<comment> \<open>\<open>name.rfind('.')\<close>, with \<open>None\<close> for -1\<close>
  "rfind_dot name =
     (if CHR ''.'' \<in> set name
      then Some (length name - 1 - length (takeWhile (\<lambda>c. c \<noteq> CHR ''.'') (rev name)))
      else None)"

definition py_suffix :: "string \<Rightarrow> string" where
  "py_suffix name =
     (case rfind_dot name of
        Some i \<Rightarrow> if 0 < i \<and> i < length name - 1 then drop i name else []
      | None \<Rightarrow> [])"

definition py_stem :: "string \<Rightarrow> string" where
  "py_stem name =
     (case rfind_dot name of
        Some i \<Rightarrow> if 0 < i \<and> i < length name - 1 then take i name else name
      | None \<Rightarrow> name)"




fun first_indexed :: "(string \<rightharpoonup> path) \<Rightarrow> string list \<Rightarrow> path option" where
  \<comment> \<open>the loop over \<open>candidate_stems\<close>: the first stem the index has\<close>
  "first_indexed m [] = None"
| "first_indexed m (stem # stems) =
     (case m stem of Some p \<Rightarrow> Some p | None \<Rightarrow> first_indexed m stems)"



subsection \<open>Slugs and lookup priority\<close>





lemma first_indexed_candidates:
  "first_indexed m [a, b] = (case m a of Some p \<Rightarrow> Some p | None \<Rightarrow> m b)"
  by (simp split: option.splits)










section \<open>The driver loops of batch\_score.py and score\_runner.py\<close>

text \<open>
  A driver sees the file system only through \<open>Path.exists\<close> on the destination, so
  the file system is the set of existing files. The scoring of one report is a
  parameter: given the file system, the report and the destination it returns whether
  it succeeded, and the file system it left. In \<open>batch_score.py\<close> it is
  \<open>subprocess.run(cmd, check=True)\<close>, which fails with \<open>CalledProcessError\<close>; in the
  roster mode of \<open>score_runner.py\<close> it is \<open>asyncio.run(score_all(...))\<close>, which fails
  with any exception.
\<close>

type_synonym scorer = "path set \<Rightarrow> path \<Rightarrow> path \<Rightarrow> bool \<times> path set"

record run_state =
  fs :: "path set"
  successes :: nat
  failures :: nat
  calls :: "(path \<times> path) list"


definition score_found :: "scorer \<Rightarrow> path option \<Rightarrow> path \<Rightarrow> run_state \<Rightarrow> run_state" where
  \<comment> \<open>the loop body after the lookup, the same in both drivers: \<open>md\<close> is the report that
      was found, if any, and \<open>out\<close> the destination\<close>
  "score_found run md out st =
     (case md of
        None \<Rightarrow> st
      | Some m \<Rightarrow>
          if out \<in> fs st then st
          else (case run (fs st) m out of
                  (ok, fs') \<Rightarrow>
                    st \<lparr> fs := fs',
                         successes := (if ok then successes st + 1 else successes st),
                         failures := (if ok then failures st else failures st + 1),
                         calls := calls st @ [(m, out)] \<rparr>))"








definition drive :: "scorer \<Rightarrow> (player \<Rightarrow> path option) \<Rightarrow> (player \<Rightarrow> path) \<Rightarrow> player list
    \<Rightarrow> run_state \<Rightarrow> run_state" where
  \<comment> \<open>both loops, for the proofs: \<open>look\<close> is the lookup and \<open>dest\<close> the destination\<close>
  "drive run look dest pls st = fold (\<lambda>pl. score_found run (look pl) (dest pl)) pls st"

subsection \<open>Resuming a batch\<close>



lemma drive_Nil [simp]: "drive run look dest [] st = st"
  by (simp add: drive_def)

lemma drive_Cons [simp]:
  "drive run look dest (pl # pls) st =
     drive run look dest pls (score_found run (look pl) (dest pl) st)"
  by (simp add: drive_def)

















section \<open>score\_runner.py: the rating schema\<close>

text \<open>
  An exception is a value: its class and its message. \<open>str(e)\<close> is the message.
\<close>

datatype exn = ValueError string | ValidationError string | OtherException string


text \<open>
  \<open>ScoreOutput\<close> is the validated model. What construction is given is a
  \<open>fields\<close> record: every declared field already of its declared type and either
  present or absent. \<open>Field(...)\<close> makes a field required, \<open>Field(default="1.0")\<close>
  gives \<open>version\<close> its default, \<open>ge\<close>/\<open>le\<close> bound the integers, \<open>min_items\<close>,
  \<open>max_items\<close> and the validator \<open>ensure_three_bullets\<close> bound the list.
\<close>

record ScoreOutput =
  model_name :: string
  current_rating :: int
  future_rating :: int
  current_confidence :: int
  future_confidence :: int
  reasoning :: "string list"
  timestamp :: string
  version :: string

record fields =
  f_model_name :: "string option"
  f_current_rating :: "int option"
  f_future_rating :: "int option"
  f_current_confidence :: "int option"
  f_future_confidence :: "int option"
  f_reasoning :: "string list option"
  f_timestamp :: "string option"
  f_version :: "string option"

definition ensure_three_bullets :: "string list \<Rightarrow> exn + string list" where
  "ensure_three_bullets v =
     (if length v \<noteq> 3 then Inl (ValueError ''reasoning must have exactly three bullets'')
      else Inr v)"

definition int_field :: "int \<Rightarrow> int \<Rightarrow> int option \<Rightarrow> int option" where
  \<comment> \<open>a required integer field with \<open>ge=lo, le=hi\<close>: \<open>None\<close> is a validation error\<close>
  "int_field lo hi v =
     (case v of None \<Rightarrow> None | Some n \<Rightarrow> if lo \<le> n \<and> n \<le> hi then Some n else None)"

definition reasoning_field :: "string list option \<Rightarrow> string list option" where
  \<comment> \<open>\<open>min_items=3, max_items=3\<close>, then \<open>ensure_three_bullets\<close>\<close>
  "reasoning_field v =
     (case v of
        None \<Rightarrow> None
      | Some r \<Rightarrow>
          if 3 \<le> length r \<and> length r \<le> 3
          then (case ensure_three_bullets r of Inl e \<Rightarrow> None | Inr r' \<Rightarrow> Some r')
          else None)"

definition ScoreOutput_init :: "fields \<Rightarrow> exn + ScoreOutput" where
  \<comment> \<open>construction of \<open>ScoreOutput\<close>: every field is checked, one failure rejects\<close>
  "ScoreOutput_init c =
     (case (f_model_name c, int_field 1 9 (f_current_rating c), int_field 1 9 (f_future_rating c),
            int_field 0 100 (f_current_confidence c), int_field 0 100 (f_future_confidence c),
            reasoning_field (f_reasoning c), f_timestamp c) of
        (Some mn, Some cr, Some fr, Some cc, Some fc, Some r, Some ts) \<Rightarrow>
          Inr \<lparr> model_name = mn, current_rating = cr, future_rating = fr,
                current_confidence = cc, future_confidence = fc, reasoning = r,
                timestamp = ts,
                version = (case f_version c of None \<Rightarrow> ''1.0'' | Some v \<Rightarrow> v) \<rparr>
      | _ \<Rightarrow> Inl (ValidationError ''validation error for ScoreOutput''))"

subsection \<open>What validation accepts\<close>







section \<open>score\_runner.py: extracting the JSON object of a reply\<close>

subsection \<open>The regular expressions\<close>

definition ci_prefix :: "string \<Rightarrow> string \<Rightarrow> bool" where
  \<comment> \<open>the lower-case literal \<open>p\<close> matches at the start of \<open>s\<close> under \<open>re.IGNORECASE\<close>\<close>
  "ci_prefix p s = prefix p (py_lower s)"

definition think_open :: string where
  "think_open = ''<think>''"

definition think_close :: string where
  "think_close = ''</think>''"

fun after_close :: "string \<Rightarrow> string option" where
  \<comment> \<open>\<open>[\s\S]*?</think>\<close> at the start of the text: what follows the first closing tag\<close>
  "after_close [] = None"
| "after_close (c # cs) =
     (if ci_prefix think_close (c # cs) then Some (drop (length think_close) (c # cs))
      else after_close cs)"

lemma after_close_shorter: "after_close s = Some r \<Longrightarrow> length r < length s"
  by (induction s) (auto simp: think_close_def split: if_splits)

function sub_think_blocks :: "string \<Rightarrow> string" where
  \<comment> \<open>\<open>re.sub(r"<think>[\s\S]*?</think>", "", text, flags=re.IGNORECASE)\<close>\<close>
  "sub_think_blocks s =
     (if s = [] then []
      else if ci_prefix think_open s
      then (case after_close (drop (length think_open) s) of
              Some r \<Rightarrow> sub_think_blocks r
            | None \<Rightarrow> hd s # sub_think_blocks (tl s))
      else hd s # sub_think_blocks (tl s))"
  by pat_completeness auto
termination
  by (relation "measure length") (auto dest: after_close_shorter intro: diff_less_mono2)

declare sub_think_blocks.simps [simp del]

function sub_think_tags :: "string \<Rightarrow> string" where
  \<comment> \<open>\<open>re.sub(r"</?think>", "", cleaned, flags=re.IGNORECASE)\<close>\<close>
  "sub_think_tags s =
     (if s = [] then []
      else if ci_prefix think_open s then sub_think_tags (drop (length think_open) s)
      else if ci_prefix think_close s then sub_think_tags (drop (length think_close) s)
      else hd s # sub_think_tags (tl s))"
  by pat_completeness auto
termination
  by (relation "measure length") (auto simp: think_open_def think_close_def)

declare sub_think_tags.simps [simp del]

definition strip_think_blocks :: "string \<Rightarrow> string" where
  \<comment> \<open>\<open>_strip_think_blocks\<close>\<close>
  "strip_think_blocks text = sub_think_tags (sub_think_blocks text)"

fun lazy_close :: "string \<Rightarrow> string option" where
  \<comment> \<open>\<open>[\s\S]*?\}\s*```\<close> at the start of the text: what \<open>[\s\S]*?\}\<close> matched\<close>
  "lazy_close [] = None"
| "lazy_close (c # cs) =
     (if c = CHR ''}'' \<and> prefix ''```'' (dropWhile py_isspace cs) then Some [c]
      else map_option (Cons c) (lazy_close cs))"

definition fence_at :: "string \<Rightarrow> string option" where
  \<comment> \<open>the pattern \<open>```json\s*(\{[\s\S]*?\})\s*```\<close> at the start of the text: group 1\<close>
  "fence_at s =
     (if prefix ''```json'' s
      then (case dropWhile py_isspace (drop 7 s) of
              [] \<Rightarrow> None
            | c # cs \<Rightarrow> if c = CHR ''{'' then map_option (Cons c) (lazy_close cs) else None)
      else None)"

fun fence_search :: "string \<Rightarrow> string option" where
  \<comment> \<open>\<open>re.search\<close> of that pattern: group 1 of the leftmost match\<close>
  "fence_search [] = None"
| "fence_search (c # cs) =
     (case fence_at (c # cs) of Some g \<Rightarrow> Some g | None \<Rightarrow> fence_search cs)"

subsection \<open>The brace scan\<close>

fun brace_scan :: "int \<Rightarrow> string \<Rightarrow> string option" where
  \<comment> \<open>the loop over \<open>range(start, len(text))\<close>: the text up to the first closing brace
      that brings \<open>depth\<close> to 0\<close>
  "brace_scan depth [] = None"
| "brace_scan depth (ch # rest) =
     (if ch = CHR ''{'' then map_option (Cons ch) (brace_scan (depth + 1) rest)
      else if ch = CHR ''}''
      then (if depth - 1 = 0 then Some [ch]
            else map_option (Cons ch) (brace_scan (depth - 1) rest))
      else map_option (Cons ch) (brace_scan depth rest))"

definition first_balanced :: "string \<Rightarrow> string option" where
  \<comment> \<open>\<open>start = text.find("{")\<close>, then the scan from \<open>start\<close> with \<open>depth = 0\<close>\<close>
  "first_balanced text = brace_scan 0 (dropWhile (\<lambda>c. c \<noteq> CHR ''{'') text)"

definition extract_json_object :: "(string \<Rightarrow> 'j option) \<Rightarrow> string \<Rightarrow> exn + 'j" where
  \<comment> \<open>\<open>_extract_json_object\<close>; \<open>loads\<close> is \<open>json.loads\<close>, \<open>None\<close> when it raises\<close>
  "extract_json_object loads text =
     (case loads text of
        Some v \<Rightarrow> Inr v
      | None \<Rightarrow>
         (case (case fence_search text of Some g \<Rightarrow> loads g | None \<Rightarrow> None) of
            Some v \<Rightarrow> Inr v
          | None \<Rightarrow>
             (case first_balanced text of
                Some candidate \<Rightarrow>
                  (case loads candidate of
                     Some v \<Rightarrow> Inr v
                   | None \<Rightarrow> Inl (ValueError ''Could not extract JSON object from model output''))
              | None \<Rightarrow> Inl (ValueError ''Could not extract JSON object from model output''))))"

subsection \<open>A model of json.loads\<close>

text \<open>
  \<open>json.loads\<close> belongs to the Python library, so \<open>extract_json_object\<close> takes it as
  a parameter and the general theorems hold for any parser. For the concrete replies
  below, \<open>json_loads\<close> follows the library's decoder on texts of code points below 256:
  the same grammar, the same whitespace (space, tab, line feed, carriage return),
  strings in strict mode (no raw control character), and nothing after the value.
  A number keeps its literal, an object keeps its pairs in the order of the text, and a
  \<open>\u\<close> escape is read when its code point is below 256. The decoder recurses once
  per nested value, each time after at least one character; \<open>fuel\<close> bounds that
  depth and starts above the length of the text.
\<close>

datatype json = JNull | JBool bool | JNum string | JStr string
  | JArr "json list" | JObj "(string \<times> json) list"

definition is_digit :: "char \<Rightarrow> bool" where
  "is_digit c = (let n = (of_char c :: nat) in 48 \<le> n \<and> n \<le> 57)"

definition hex_val :: "char \<Rightarrow> nat option" where
  "hex_val c = (let n = (of_char c :: nat) in
     if 48 \<le> n \<and> n \<le> 57 then Some (n - 48)
     else if 65 \<le> n \<and> n \<le> 70 then Some (n - 55)
     else if 97 \<le> n \<and> n \<le> 102 then Some (n - 87)
     else None)"

definition unescape :: "char \<Rightarrow> char option" where
  \<comment> \<open>the one-letter escapes of a JSON string\<close>
  "unescape e =
     (if e = CHR 0x22 \<or> e = CHR 0x5C \<or> e = CHR ''/'' then Some e
      else if e = CHR ''b'' then Some (CHR 0x08)
      else if e = CHR ''f'' then Some (CHR 0x0C)
      else if e = CHR ''n'' then Some (CHR 0x0A)
      else if e = CHR ''r'' then Some (CHR 0x0D)
      else if e = CHR ''t'' then Some (CHR 0x09)
      else None)"

definition unicode_escape :: "string \<Rightarrow> char option" where
  \<comment> \<open>the four hexadecimal digits after \<open>\u\<close>\<close>
  "unicode_escape h =
     (case map hex_val h of
        [Some a, Some b, Some c, Some d] \<Rightarrow>
          if a = 0 \<and> b = 0 then Some (char_of (16 * c + d)) else None
      | _ \<Rightarrow> None)"

function lex_string :: "string \<Rightarrow> string \<Rightarrow> (string \<times> string) option" where
  \<comment> \<open>after the opening quote: the decoded string and the text after the closing quote\<close>
  "lex_string acc s =
     (if s = [] then None
      else if hd s = CHR 0x22 then Some (rev acc, tl s)
      else if hd s = CHR 0x5C
      then (if tl s = [] then None
            else if hd (tl s) = CHR ''u''
            then (if length s < 6 then None
                  else (case unicode_escape (take 4 (drop 2 s)) of
                          None \<Rightarrow> None
                        | Some d \<Rightarrow> lex_string (d # acc) (drop 6 s)))
            else (case unescape (hd (tl s)) of
                    None \<Rightarrow> None
                  | Some d \<Rightarrow> lex_string (d # acc) (drop 2 s)))
      else if (of_char (hd s) :: nat) < 32 then None
      else lex_string (hd s # acc) (tl s))"
  by pat_completeness auto
termination
  by (relation "measure (\<lambda>(acc, s). length s)") auto

declare lex_string.simps [simp del]

definition lex_number :: "string \<Rightarrow> (string \<times> string) option" where
  \<comment> \<open>\<open>(-?(?:0|[1-9]\d*))(\.\d+)?([eE][-+]?\d+)?\<close> at the start of the text\<close>
  "lex_number s =
     (let (sign, s1) = (if s \<noteq> [] \<and> hd s = CHR ''-'' then (''-'', tl s) else ([], s));
          ds = takeWhile is_digit s1
      in if ds = [] then None
         else
           let (ip, s2) = (if hd ds = CHR ''0'' then (''0'', tl s1) else (ds, dropWhile is_digit s1));
               fd = (if s2 \<noteq> [] \<and> hd s2 = CHR ''.'' then takeWhile is_digit (tl s2) else []);
               (fp, s3) = (if fd = [] then ([], s2) else (CHR ''.'' # fd, drop (Suc (length fd)) s2));
               s4 = (if s3 \<noteq> [] \<and> (hd s3 = CHR ''e'' \<or> hd s3 = CHR ''E'') then tl s3 else []);
               (es, s5) = (if s4 \<noteq> [] \<and> (hd s4 = CHR ''-'' \<or> hd s4 = CHR ''+'')
                           then ([hd s4], tl s4) else ([], s4));
               ed = takeWhile is_digit s5;
               (ep, s6) = (if ed = [] then ([], s3) else (hd s3 # es @ ed, dropWhile is_digit s5))
           in Some (sign @ ip @ fp @ ep, s6))"

definition lex_atom :: "string \<Rightarrow> (json \<times> string) option" where
  \<comment> \<open>a literal or a number, in the order the scanner tries them\<close>
  "lex_atom s =
     (if prefix ''null'' s then Some (JNull, drop 4 s)
      else if prefix ''true'' s then Some (JBool True, drop 4 s)
      else if prefix ''false'' s then Some (JBool False, drop 5 s)
      else (case lex_number s of
              Some (n, r) \<Rightarrow> Some (JNum n, r)
            | None \<Rightarrow>
                if prefix ''NaN'' s then Some (JNum ''NaN'', drop 3 s)
                else if prefix ''Infinity'' s then Some (JNum ''Infinity'', drop 8 s)
                else if prefix ''-Infinity'' s then Some (JNum ''-Infinity'', drop 9 s)
                else None))"

definition skip_ws :: "string \<Rightarrow> string" where
  "skip_ws s = dropWhile (\<lambda>c. c = CHR '' '' \<or> c = CHR 0x09 \<or> c = CHR 0x0A \<or> c = CHR 0x0D) s"

fun scan_once :: "nat \<Rightarrow> string \<Rightarrow> (json \<times> string) option"
  and json_object :: "nat \<Rightarrow> (string \<times> json) list \<Rightarrow> string \<Rightarrow> (json \<times> string) option"
  and json_array :: "nat \<Rightarrow> json list \<Rightarrow> string \<Rightarrow> (json \<times> string) option"
where
  "scan_once 0 s = None"
| "scan_once (Suc fuel) s =
     (if s = [] then None
      else if hd s = CHR 0x22
      then (case lex_string [] (tl s) of None \<Rightarrow> None | Some (v, r) \<Rightarrow> Some (JStr v, r))
      else if hd s = CHR ''{''
      then (let r = skip_ws (tl s)
            in if r \<noteq> [] \<and> hd r = CHR ''}'' then Some (JObj [], tl r)
               else json_object fuel [] r)
      else if hd s = CHR ''[''
      then (let r = skip_ws (tl s)
            in if r \<noteq> [] \<and> hd r = CHR '']'' then Some (JArr [], tl r)
               else json_array fuel [] r)
      else lex_atom s)"
| "json_object 0 pairs s = None"
| "json_object (Suc fuel) pairs s =
     (if s = [] \<or> hd s \<noteq> CHR 0x22 then None
      else (case lex_string [] (tl s) of
              None \<Rightarrow> None
            | Some (key, r) \<Rightarrow>
                let r1 = skip_ws r
                in if r1 = [] \<or> hd r1 \<noteq> CHR '':'' then None
                   else (case scan_once fuel (skip_ws (tl r1)) of
                           None \<Rightarrow> None
                         | Some (v, r2) \<Rightarrow>
                             let r3 = skip_ws r2
                             in if r3 = [] then None
                                else if hd r3 = CHR ''}''
                                then Some (JObj (pairs @ [(key, v)]), tl r3)
                                else if hd r3 = CHR '',''
                                then json_object fuel (pairs @ [(key, v)]) (skip_ws (tl r3))
                                else None)))"
| "json_array 0 vs s = None"
| "json_array (Suc fuel) vs s =
     (case scan_once fuel s of
        None \<Rightarrow> None
      | Some (v, r) \<Rightarrow>
          let r1 = skip_ws r
          in if r1 = [] then None
             else if hd r1 = CHR '']'' then Some (JArr (vs @ [v]), tl r1)
             else if hd r1 = CHR '','' then json_array fuel (vs @ [v]) (skip_ws (tl r1))
             else None)"

definition json_loads :: "string \<Rightarrow> json option" where
  "json_loads s =
     (case scan_once (Suc (length s)) (skip_ws s) of
        None \<Rightarrow> None
      | Some (v, r) \<Rightarrow> if skip_ws r = [] then Some v else None)"

subsection \<open>Correctness of the brace scan\<close>

definition brace_depth :: "string \<Rightarrow> int" where
  \<comment> \<open>opening braces minus closing braces\<close>
  "brace_depth s = int (count_list s (CHR ''{'')) - int (count_list s (CHR ''}''))"

definition top_level_span :: "string \<Rightarrow> bool" where
  \<comment> \<open>the text starts with an opening brace and its braces balance for the first time
      at its last character\<close>
  "top_level_span obj \<longleftrightarrow>
     obj \<noteq> [] \<and> hd obj = CHR ''{'' \<and> brace_depth obj = 0
     \<and> (\<forall>n\<in>{1..<length obj}. 0 < brace_depth (take n obj))"

lemma brace_depth_Nil [simp]: "brace_depth [] = 0"
  by (simp add: brace_depth_def)

lemma brace_depth_Cons:
  "brace_depth (c # cs) =
     (if c = CHR ''{'' then 1 else if c = CHR ''}'' then -1 else 0) + brace_depth cs"
  by (simp add: brace_depth_def)

lemma brace_depth_append: "brace_depth (xs @ ys) = brace_depth xs + brace_depth ys"
  by (induction xs) (simp_all add: brace_depth_Cons)

lemma brace_scan_stops:
  assumes "obj \<noteq> []" and "last obj = CHR ''}''" and "d + brace_depth obj = 0"
    and "\<forall>n. 0 < n \<and> n < length obj \<longrightarrow> d + brace_depth (take n obj) \<noteq> 0"
  shows "brace_scan d (obj @ post) = Some obj"
  using assms
proof (induction obj arbitrary: d)
  case Nil
  then show ?case by simp
next
  case (Cons c cs)
  show ?case
  proof (cases "cs = []")
    case True
    with Cons.prems show ?thesis
      by (simp add: brace_depth_Cons)
  next
    case False
    let ?k = "(if c = CHR ''{'' then 1 else if c = CHR ''}'' then -1 else 0) :: int"
    from Cons.prems(4) [rule_format, of 1] False have one: "d + ?k \<noteq> 0"
      by (simp add: brace_depth_Cons)
    have pre: "\<forall>n. 0 < n \<and> n < length cs \<longrightarrow> (d + ?k) + brace_depth (take n cs) \<noteq> 0"
    proof (intro allI impI)
      fix n assume "0 < n \<and> n < length cs"
      with Cons.prems(4) [rule_format, of "Suc n"] show "(d + ?k) + brace_depth (take n cs) \<noteq> 0"
        by (simp add: brace_depth_Cons add.assoc)
    qed
    from Cons.prems(3) have tot: "(d + ?k) + brace_depth cs = 0"
      by (simp add: brace_depth_Cons add.assoc)
    from Cons.prems(2) False have "last cs = CHR ''}''"
      by simp
    from Cons.IH [OF False this tot pre] have "brace_scan (d + ?k) (cs @ post) = Some cs" .
    with one show ?thesis
      by (auto split: if_splits)
  qed
qed

lemma top_level_span_last:
  assumes "top_level_span obj"
  shows "last obj = CHR ''}''"
proof -
  from assms have ne: "obj \<noteq> []" and h: "hd obj = CHR ''{''" and z: "brace_depth obj = 0"
    and pos: "\<forall>n\<in>{1..<length obj}. 0 < brace_depth (take n obj)"
    by (simp_all add: top_level_span_def)
  have "length obj \<noteq> 1"
  proof
    assume "length obj = 1"
    then obtain c where "obj = [c]" by (cases obj) auto
    with h z show False by (simp add: brace_depth_Cons)
  qed
  moreover from ne have "length obj \<noteq> 0"
    by simp
  ultimately have "2 \<le> length obj"
    by arith
  then have "length obj - 1 \<in> {1..<length obj}"
    by auto
  with pos have "0 < brace_depth (take (length obj - 1) obj)"
    by blast
  then have b: "0 < brace_depth (butlast obj)"
    by (simp add: butlast_conv_take)
  have "brace_depth (butlast obj @ [last obj]) = brace_depth (butlast obj) + brace_depth [last obj]"
    by (rule brace_depth_append)
  moreover from ne have "butlast obj @ [last obj] = obj"
    by simp
  ultimately have e: "brace_depth obj = brace_depth (butlast obj) + brace_depth [last obj]"
    by simp
  show ?thesis
  proof (rule ccontr)
    assume "last obj \<noteq> CHR ''}''"
    then have "0 \<le> brace_depth [last obj]"
      by (simp add: brace_depth_Cons)
    with e z b show False
      by simp
  qed
qed

lemma first_balanced_span:
  assumes "CHR ''{'' \<notin> set pre" and "top_level_span obj"
  shows "first_balanced (pre @ obj @ post) = Some obj"
proof -
  from assms(2) have ne: "obj \<noteq> []" and h: "hd obj = CHR ''{''" and z: "brace_depth obj = 0"
    and pos: "\<forall>n\<in>{1..<length obj}. 0 < brace_depth (take n obj)"
    by (simp_all add: top_level_span_def)
  from ne h assms(1) have "dropWhile (\<lambda>c. c \<noteq> CHR ''{'') (pre @ obj @ post) = obj @ post"
    by (cases obj) (simp_all add: dropWhile_append)
  moreover have "brace_scan 0 (obj @ post) = Some obj"
  proof (rule brace_scan_stops [OF ne top_level_span_last [OF assms(2)]])
    show "0 + brace_depth obj = 0" using z by simp
    show "\<forall>n. 0 < n \<and> n < length obj \<longrightarrow> 0 + brace_depth (take n obj) \<noteq> 0"
    proof (intro allI impI)
      fix n assume "0 < n \<and> n < length obj"
      then have "n \<in> {1..<length obj}" by simp
      with pos have "0 < brace_depth (take n obj)" by blast
      then show "0 + brace_depth (take n obj) \<noteq> 0" by simp
    qed
  qed
  ultimately show ?thesis
    by (simp add: first_balanced_def)
qed

lemma fence_search_None:
  assumes "\<not> sublist ''```json'' reply"
  shows "fence_search reply = None"
  using assms
proof (induction reply)
  case Nil
  show ?case by (simp only: fence_search.simps)
next
  case (Cons c cs)
  have "\<not> prefix ''```json'' (c # cs)"
  proof
    assume "prefix ''```json'' (c # cs)"
    then have "sublist ''```json'' (c # cs)"
      by (rule prefix_imp_sublist)
    with Cons.prems show False
      by (rule notE)
  qed
  then have a: "fence_at (c # cs) = None"
    unfolding fence_at_def by (simp only: if_False)
  have "\<not> sublist ''```json'' cs"
  proof
    assume "sublist ''```json'' cs"
    then have "sublist ''```json'' (c # cs)"
      by (rule sublist_Cons_right [THEN iffD2, OF disjI2])
    with Cons.prems show False
      by (rule notE)
  qed
  then have b: "fence_search cs = None"
    by (rule Cons.IH)
  show ?case
    by (simp only: fence_search.simps a b option.case)
qed

text \<open>
  C3 (amended). For every reply, \<open>_extract_json_object\<close> tries, in this order: (a)
  parsing the whole reply as JSON, (b) parsing the contents of a fenced code block
  labelled json, (c) parsing the first top-level balanced \<open>{...}\<close> span found by
  brace-depth scanning; the first strategy that parses determines the result, and if
  none parses it raises the extraction error. The scan counts every brace, also those
  inside JSON strings. So for a reply made of prose without an opening brace, then a
  valid JSON object whose braces balance for the first time at its last character,
  then more prose, where the reply has no json fence and is not JSON as a whole, it
  returns exactly that object.
\<close>

theorem extract_json_object_order:
  "(loads reply = Some v \<longrightarrow> extract_json_object loads reply = Inr v)
   \<and> (loads reply = None \<and> fence_search reply = Some g \<and> loads g = Some v
        \<longrightarrow> extract_json_object loads reply = Inr v)
   \<and> (loads reply = None
        \<and> (fence_search reply = None \<or> (fence_search reply = Some g \<and> loads g = None))
        \<and> first_balanced reply = Some cand \<and> loads cand = Some v
        \<longrightarrow> extract_json_object loads reply = Inr v)
   \<and> (loads reply = None
        \<and> (fence_search reply = None \<or> (fence_search reply = Some g \<and> loads g = None))
        \<and> (first_balanced reply = None \<or> (first_balanced reply = Some cand \<and> loads cand = None))
        \<longrightarrow> extract_json_object loads reply
            = Inl (ValueError ''Could not extract JSON object from model output''))
   \<and> (CHR ''{'' \<notin> set pre \<and> top_level_span obj \<and> \<not> sublist ''```json'' (pre @ obj @ post)
        \<and> loads (pre @ obj @ post) = None \<and> loads obj = Some v
        \<longrightarrow> extract_json_object loads (pre @ obj @ post) = Inr v)"
proof -
  have a: "loads reply = Some v \<longrightarrow> extract_json_object loads reply = Inr v"
    by (simp add: extract_json_object_def)
  have b: "loads reply = None \<and> fence_search reply = Some g \<and> loads g = Some v
        \<longrightarrow> extract_json_object loads reply = Inr v"
    by (simp add: extract_json_object_def)
  have c: "loads reply = None
        \<and> (fence_search reply = None \<or> (fence_search reply = Some g \<and> loads g = None))
        \<and> first_balanced reply = Some cand \<and> loads cand = Some v
        \<longrightarrow> extract_json_object loads reply = Inr v"
    by (auto simp: extract_json_object_def)
  have d: "loads reply = None
        \<and> (fence_search reply = None \<or> (fence_search reply = Some g \<and> loads g = None))
        \<and> (first_balanced reply = None \<or> (first_balanced reply = Some cand \<and> loads cand = None))
        \<longrightarrow> extract_json_object loads reply
            = Inl (ValueError ''Could not extract JSON object from model output'')"
    by (auto simp: extract_json_object_def)
  have e: "CHR ''{'' \<notin> set pre \<and> top_level_span obj \<and> \<not> sublist ''```json'' (pre @ obj @ post)
        \<and> loads (pre @ obj @ post) = None \<and> loads obj = Some v
        \<longrightarrow> extract_json_object loads (pre @ obj @ post) = Inr v"
  proof
    assume h: "CHR ''{'' \<notin> set pre \<and> top_level_span obj \<and> \<not> sublist ''```json'' (pre @ obj @ post)
        \<and> loads (pre @ obj @ post) = None \<and> loads obj = Some v"
    then have "fence_search (pre @ obj @ post) = None"
      by (intro fence_search_None) (rule conjunct1 [OF conjunct2 [OF conjunct2]])
    moreover from h have "first_balanced (pre @ obj @ post) = Some obj"
      by (intro first_balanced_span) simp_all
    moreover from h have "loads (pre @ obj @ post) = None" "loads obj = Some v"
      by simp_all
    ultimately show "extract_json_object loads (pre @ obj @ post) = Inr v"
      by (simp add: extract_json_object_def)
  qed
  from a b c d e show ?thesis
    by (intro conjI)
qed

theorem extract_json_object_order_witness:
  "extract_json_object json_loads ''{\"a\":1}'' = Inr (JObj [(''a'', JNum ''1'')])
   \<and> json_loads ''Here: ```json {\"a\":1} ``` done'' = None
   \<and> fence_search ''Here: ```json {\"a\":1} ``` done'' = Some ''{\"a\":1}''
   \<and> extract_json_object json_loads ''Here: ```json {\"a\":1} ``` done''
       = Inr (JObj [(''a'', JNum ''1'')])
   \<and> json_loads ''no object here'' = None \<and> fence_search ''no object here'' = None
   \<and> first_balanced ''no object here'' = None
   \<and> extract_json_object json_loads ''no object here''
       = Inl (ValueError ''Could not extract JSON object from model output'')
   \<and> CHR ''{'' \<notin> set ''Sure, here: '' \<and> top_level_span ''{\"a\":{\"b\":7}}''
   \<and> \<not> sublist ''```json'' (''Sure, here: '' @ ''{\"a\":{\"b\":7}}'' @ '' Thanks'')
   \<and> json_loads (''Sure, here: '' @ ''{\"a\":{\"b\":7}}'' @ '' Thanks'') = None
   \<and> fence_search (''Sure, here: '' @ ''{\"a\":{\"b\":7}}'' @ '' Thanks'') = None
   \<and> first_balanced (''Sure, here: '' @ ''{\"a\":{\"b\":7}}'' @ '' Thanks'')
       = Some ''{\"a\":{\"b\":7}}''
   \<and> extract_json_object json_loads (''Sure, here: '' @ ''{\"a\":{\"b\":7}}'' @ '' Thanks'')
       = Inr (JObj [(''a'', JObj [(''b'', JNum ''7'')])])"
proof -
  let ?r2 = "''Here: ```json {\"a\":1} ``` done''"
  let ?r4 = "''no object here''"
  let ?pre = "''Sure, here: ''" and ?obj = "''{\"a\":{\"b\":7}}''" and ?post = "'' Thanks''"
  let ?v = "JObj [(''a'', JNum ''1'')]"
  let ?w = "JObj [(''a'', JObj [(''b'', JNum ''7'')])]"
  have h1: "json_loads ''{\"a\":1}'' = Some ?v"
    by code_simp
  have h2: "json_loads ?r2 = None \<and> fence_search ?r2 = Some ''{\"a\":1}''"
    by code_simp
  have h4: "json_loads ?r4 = None \<and> fence_search ?r4 = None \<and> first_balanced ?r4 = None"
    by code_simp
  have h5: "CHR ''{'' \<notin> set ?pre \<and> top_level_span ?obj
        \<and> \<not> sublist ''```json'' (?pre @ ?obj @ ?post)
        \<and> json_loads (?pre @ ?obj @ ?post) = None \<and> json_loads ?obj = Some ?w"
    by code_simp
  have h3: "fence_search (?pre @ ?obj @ ?post) = None
        \<and> first_balanced (?pre @ ?obj @ ?post) = Some ?obj"
    by code_simp
  from extract_json_object_order [of json_loads "''{\"a\":1}''" ?v] h1
  have c1: "extract_json_object json_loads ''{\"a\":1}'' = Inr ?v"
    by blast
  from extract_json_object_order [of json_loads ?r2 ?v "''{\"a\":1}''"] h1 h2
  have c2: "extract_json_object json_loads ?r2 = Inr ?v"
    by blast
  from extract_json_object_order [of json_loads ?r4 _ _ _ _ _ _] h4
  have c4: "extract_json_object json_loads ?r4
       = Inl (ValueError ''Could not extract JSON object from model output'')"
    by blast
  from extract_json_object_order [of json_loads "?pre @ ?obj @ ?post" ?w _ ?obj] h3 h5
  have c3: "extract_json_object json_loads (?pre @ ?obj @ ?post) = Inr ?w"
    by blast
  from extract_json_object_order [of json_loads _ ?w _ _ ?pre ?obj ?post] h5
  have c5: "extract_json_object json_loads (?pre @ ?obj @ ?post) = Inr ?w"
    by blast
  from c1 h2 c2 h4 c4 h5 h3 c3 c5 show ?thesis
    by blast
qed

theorem extract_json_object_counterexample:
  "json_loads ''{\"a\":\"}\"}'' = Some (JObj [(''a'', JStr ''}'')])
   \<and> extract_json_object json_loads ''Sure, here: {\"a\":\"}\"} Thanks''
       = Inl (ValueError ''Could not extract JSON object from model output'')"
  by code_simp

subsection \<open>Stripping the reasoning markers\<close>

definition has_tag :: "string \<Rightarrow> string \<Rightarrow> bool" where
  \<comment> \<open>the lower-case tag \<open>p\<close> occurs in \<open>s\<close>, whatever the case of its letters\<close>
  "has_tag p s = sublist p (py_lower s)"

lemma py_lower_append: "py_lower (a @ b) = py_lower a @ py_lower b"
  by (simp add: py_lower_def)

lemma length_py_lower: "length (py_lower s) = length s"
  by (simp add: py_lower_def)

lemma py_lower_Cons: "py_lower (c # cs) = py_lower_char c # py_lower cs"
  by (simp add: py_lower_def)

lemma no_tag_Cons:
  assumes "\<not> has_tag p (c # cs)"
  shows "\<not> ci_prefix p (c # cs)" and "\<not> has_tag p cs"
  using assms
  by (simp_all add: has_tag_def ci_prefix_def py_lower_Cons sublist_Cons_right)

lemma sub_think_blocks_id:
  "\<not> has_tag think_open s \<Longrightarrow> sub_think_blocks s = s"
proof (induction s)
  case Nil
  show ?case by (simp add: sub_think_blocks.simps)
next
  case (Cons c cs)
  from no_tag_Cons [OF Cons.prems] Cons.IH
  show ?case by (simp add: sub_think_blocks.simps [of "c # cs"])
qed

lemma sub_think_tags_id:
  "\<not> has_tag think_open s \<Longrightarrow> \<not> has_tag think_close s \<Longrightarrow> sub_think_tags s = s"
proof (induction s)
  case Nil
  show ?case by (simp add: sub_think_tags.simps)
next
  case (Cons c cs)
  from no_tag_Cons [OF Cons.prems(1)] no_tag_Cons [OF Cons.prems(2)] Cons.IH
  show ?case by (simp add: sub_think_tags.simps [of "c # cs"])
qed

lemma after_close_None: "\<not> has_tag think_close s \<Longrightarrow> after_close s = None"
proof (induction s)
  case Nil
  show ?case by simp
next
  case (Cons c cs)
  from no_tag_Cons [OF Cons.prems] Cons.IH
  show ?case by simp
qed

lemma no_tag_append:
  assumes "p \<noteq> []" and "hd p \<notin> set (py_lower a)" and "\<not> has_tag p b"
  shows "\<not> has_tag p (a @ b)"
  using assms(2)
proof (induction a)
  case Nil
  from assms(3) show ?case by simp
next
  case (Cons x xs)
  from Cons.prems have x: "hd p \<noteq> py_lower_char x" and xs: "hd p \<notin> set (py_lower xs)"
    by (simp_all add: py_lower_Cons)
  from assms(1) x have "\<not> prefix p (py_lower_char x # py_lower (xs @ b))"
    by (cases p) auto
  with Cons.IH [OF xs] show ?case
    by (simp add: has_tag_def py_lower_Cons sublist_Cons_right)
qed

lemma no_straddle:
  assumes "p \<noteq> []" and "hd p \<notin> set (tl p)" and "a \<noteq> []" and "\<not> sublist p a"
  shows "\<not> prefix p (a @ p @ r)"
proof
  assume "prefix p (a @ p @ r)"
  then have "prefix p a \<or> (\<exists>us. p = a @ us \<and> prefix us (p @ r))"
    by (simp only: prefix_append)
  then show False
  proof
    assume "prefix p a"
    then have "sublist p a" by (rule prefix_imp_sublist)
    with assms(4) show False by (rule notE)
  next
    assume "\<exists>us. p = a @ us \<and> prefix us (p @ r)"
    then obtain us where p: "p = a @ us" and pre: "prefix us (p @ r)"
      by blast
    from assms(3) obtain x xs where a: "a = x # xs"
      by (cases a) auto
    show False
    proof (cases us)
      case Nil
      with p have "p = a" by simp
      then have "sublist p a" by simp
      with assms(4) show False by (rule notE)
    next
      case (Cons u us')
      from p a have hp: "hd p = x" and tp: "tl p = xs @ us"
        by simp_all
      from pre have "prefix (u # us') ((x # xs @ us) @ r)"
        unfolding Cons [symmetric] p a by simp
      then have "u = x"
        by simp
      moreover from tp Cons have "u \<in> set (tl p)"
        by simp
      ultimately show False
        using assms(2) hp by simp
    qed
  qed
qed

lemma think_close_facts:
  "think_close \<noteq> []" "hd think_close \<notin> set (tl think_close)" "length think_close = 8"
  "hd think_close = CHR ''<''"
  by (simp_all add: think_close_def)

lemma think_open_facts:
  "think_open \<noteq> []" "hd think_open \<notin> set (tl think_open)" "length think_open = 7"
  "hd think_open = CHR ''<''" "\<not> prefix think_open (think_close @ r)"
  by (simp_all add: think_open_def think_close_def)

lemma drop_length_append: "length a = n \<Longrightarrow> drop n (a @ b) = b"
  by simp

lemma after_close_hit:
  "s \<noteq> [] \<Longrightarrow> ci_prefix think_close s \<Longrightarrow> after_close s = Some (drop (length think_close) s)"
  by (cases s) simp_all

lemma after_close_miss:
  "\<not> ci_prefix think_close (c # cs) \<Longrightarrow> after_close (c # cs) = after_close cs"
  by simp

lemma sub_think_blocks_hit:
  assumes "s \<noteq> []" and "ci_prefix think_open s"
    and "after_close (drop (length think_open) s) = Some r"
  shows "sub_think_blocks s = sub_think_blocks r"
  using assms by (subst sub_think_blocks.simps) simp

lemma sub_think_blocks_unclosed:
  assumes "s \<noteq> []" and "ci_prefix think_open s"
    and "after_close (drop (length think_open) s) = None"
  shows "sub_think_blocks s = hd s # sub_think_blocks (tl s)"
  using assms by (subst sub_think_blocks.simps) simp

lemma sub_think_tags_open:
  assumes "s \<noteq> []" and "ci_prefix think_open s"
  shows "sub_think_tags s = sub_think_tags (drop (length think_open) s)"
  using assms by (subst sub_think_tags.simps) simp

lemma sub_think_tags_close:
  assumes "s \<noteq> []" and "\<not> ci_prefix think_open s" and "ci_prefix think_close s"
  shows "sub_think_tags s = sub_think_tags (drop (length think_close) s)"
  using assms by (subst sub_think_tags.simps) simp

lemma ci_prefix_tag: "py_lower m = p \<Longrightarrow> ci_prefix p (m @ r)"
  by (simp add: ci_prefix_def py_lower_append)

lemma tag_length: "py_lower m = p \<Longrightarrow> length m = length p"
  using length_py_lower [of m] by simp

lemma after_close_block:
  assumes "py_lower cls = think_close" and "\<not> has_tag think_close body"
  shows "after_close (body @ cls @ rest) = Some rest"
  using assms(2)
proof (induction body)
  case Nil
  from tag_length [OF assms(1)] think_close_facts(1) have ne: "cls @ rest \<noteq> []"
    by auto
  from after_close_hit [OF ne ci_prefix_tag [OF assms(1)]]
    drop_length_append [OF tag_length [OF assms(1)], of rest]
  show ?case by simp
next
  case (Cons b bs)
  from no_tag_Cons [OF Cons.prems] have nb: "\<not> has_tag think_close bs"
    by simp
  from Cons.prems have ns: "\<not> sublist think_close (py_lower (b # bs))"
    by (simp add: has_tag_def)
  have "py_lower (b # bs) \<noteq> []"
    by (simp add: py_lower_def)
  from no_straddle [OF think_close_facts(1,2) this ns, of "py_lower rest"]
  have "\<not> ci_prefix think_close ((b # bs) @ cls @ rest)"
    unfolding ci_prefix_def py_lower_append assms(1) .
  then have "\<not> ci_prefix think_close (b # (bs @ cls @ rest))"
    by simp
  from after_close_miss [OF this] Cons.IH [OF nb] show ?case
    by simp
qed

lemma strip_block:
  assumes "py_lower opn = think_open" and "py_lower cls = think_close"
    and "\<not> has_tag think_close body"
    and "\<not> has_tag think_open obj" and "\<not> has_tag think_close obj"
  shows "strip_think_blocks (opn @ body @ cls @ obj) = obj"
proof -
  let ?s = "opn @ body @ cls @ obj"
  from tag_length [OF assms(1)] think_open_facts(1) have ne: "?s \<noteq> []"
    by auto
  have "after_close (drop (length think_open) ?s) = Some obj"
    by (simp only: drop_length_append [OF tag_length [OF assms(1)]]
          after_close_block [OF assms(2,3)])
  from sub_think_blocks_hit [OF ne ci_prefix_tag [OF assms(1)] this]
  have "sub_think_blocks ?s = obj"
    by (simp only: sub_think_blocks_id [OF assms(4)])
  then show ?thesis
    by (simp only: strip_think_blocks_def sub_think_tags_id [OF assms(4,5)])
qed

lemma strip_block_any:
  assumes "py_lower opn = think_open" and "py_lower cls = think_close"
    and "\<not> has_tag think_close body"
  shows "strip_think_blocks (opn @ body @ cls @ rest) = strip_think_blocks rest"
proof -
  let ?s = "opn @ body @ cls @ rest"
  from tag_length [OF assms(1)] think_open_facts(1) have ne: "?s \<noteq> []"
    by auto
  have "after_close (drop (length think_open) ?s) = Some rest"
    by (simp only: drop_length_append [OF tag_length [OF assms(1)]]
          after_close_block [OF assms(2,3)])
  from sub_think_blocks_hit [OF ne ci_prefix_tag [OF assms(1)] this]
  show ?thesis
    by (simp only: strip_think_blocks_def)
qed

lemma strip_lone_open:
  assumes "py_lower m = think_open"
    and "\<not> has_tag think_open obj" and "\<not> has_tag think_close obj"
  shows "strip_think_blocks (m @ obj) = obj"
proof -
  from tag_length [OF assms(1)] think_open_facts(1) obtain c cs where m: "m = c # cs"
    by (cases m) auto
  then have ne: "m @ obj \<noteq> []"
    by simp
  from assms(1) have "py_lower cs = tl think_open"
    unfolding m py_lower_Cons by (metis list.sel(3))
  with think_open_facts(2) have "hd think_open \<notin> set (py_lower cs)"
    by simp
  from no_tag_append [OF think_open_facts(1) this assms(2)]
  have rest: "sub_think_blocks (cs @ obj) = cs @ obj"
    by (rule sub_think_blocks_id)
  have "after_close (drop (length think_open) (m @ obj)) = None"
    by (simp only: drop_length_append [OF tag_length [OF assms(1)]] after_close_None [OF assms(3)])
  from sub_think_blocks_unclosed [OF ne ci_prefix_tag [OF assms(1)] this]
  have "sub_think_blocks (m @ obj) = m @ obj"
    by (simp add: m rest)
  moreover from sub_think_tags_open [OF ne ci_prefix_tag [OF assms(1)]]
  have "sub_think_tags (m @ obj) = obj"
    by (simp only: drop_length_append [OF tag_length [OF assms(1)]]
          sub_think_tags_id [OF assms(2,3)])
  ultimately show ?thesis
    by (simp only: strip_think_blocks_def)
qed

lemma strip_lone_close:
  assumes "py_lower m = think_close"
    and "\<not> has_tag think_open obj" and "\<not> has_tag think_close obj"
  shows "strip_think_blocks (m @ obj) = obj"
proof -
  from tag_length [OF assms(1)] think_close_facts(1) obtain c cs where m: "m = c # cs"
    by (cases m) auto
  then have ne: "m @ obj \<noteq> []"
    by simp
  from assms(1) have "py_lower cs = tl think_close"
    unfolding m py_lower_Cons by (metis list.sel(3))
  then have "hd think_open \<notin> set (py_lower cs)"
    by (simp add: think_open_def think_close_def)
  from no_tag_append [OF think_open_facts(1) this assms(2)]
  have tl: "\<not> has_tag think_open (cs @ obj)" .
  have np: "\<not> ci_prefix think_open (m @ obj)"
    unfolding ci_prefix_def py_lower_append assms(1) by (rule think_open_facts(5))
  have "\<not> has_tag think_open (c # (cs @ obj))"
    using np tl by (simp add: m has_tag_def ci_prefix_def py_lower_Cons sublist_Cons_right)
  then have "\<not> has_tag think_open (m @ obj)"
    by (simp add: m)
  then have "sub_think_blocks (m @ obj) = m @ obj"
    by (rule sub_think_blocks_id)
  moreover from sub_think_tags_close [OF ne np ci_prefix_tag [OF assms(1)]]
  have "sub_think_tags (m @ obj) = obj"
    by (simp only: drop_length_append [OF tag_length [OF assms(1)]]
          sub_think_tags_id [OF assms(2,3)])
  ultimately show ?thesis
    by (simp only: strip_think_blocks_def)
qed

section \<open>score\_runner.py: the adapters\<close>

text \<open>
  An adapter is the coroutine function \<open>run\<close> that a builder returns. The model call
  \<open>chain.ainvoke\<close> is a parameter: it returns the reply or the exception it raised.
  \<open>now\<close> is what \<open>datetime.now(timezone.utc).isoformat()\<close> gives when the reply has
  been validated. \<open>to_fields\<close> is the conversion of the parsed JSON value to the
  declared field types that \<open>model_validate\<close> starts with (\<open>None\<close> when it fails); the
  constraints of the schema are then checked by \<open>ScoreOutput_init\<close>.
\<close>

definition model_validate :: "('j \<Rightarrow> fields option) \<Rightarrow> 'j \<Rightarrow> exn + ScoreOutput" where
  "model_validate to_fields data_raw =
     (case to_fields data_raw of
        None \<Rightarrow> Inl (ValidationError ''validation error for ScoreOutput'')
      | Some c \<Rightarrow> ScoreOutput_init c)"

definition build_chain ::
  "(string \<Rightarrow> exn + ScoreOutput) \<Rightarrow> string \<Rightarrow> string \<Rightarrow> string \<Rightarrow> exn + ScoreOutput" where
  \<comment> \<open>\<open>build_chain(llm, model_name)\<close>: the structured reply is a \<open>ScoreOutput\<close>\<close>
  "build_chain structured_llm name now player_summary_markdown =
     (case structured_llm player_summary_markdown of
        Inl e \<Rightarrow> Inl e
      | Inr result \<Rightarrow> Inr (result \<lparr> model_name := name, timestamp := now \<rparr>))"

definition build_chain_plain_json ::
  "(string \<Rightarrow> 'j option) \<Rightarrow> ('j \<Rightarrow> fields option) \<Rightarrow> (string \<Rightarrow> exn + string)
     \<Rightarrow> string \<Rightarrow> string \<Rightarrow> string \<Rightarrow> exn + ScoreOutput" where
  "build_chain_plain_json loads to_fields llm name now player_summary_markdown =
     (case llm player_summary_markdown of
        Inl e \<Rightarrow> Inl e
      | Inr content \<Rightarrow>
         (case extract_json_object loads content of
            Inl e \<Rightarrow> Inl e
          | Inr data_raw \<Rightarrow>
             (case model_validate to_fields data_raw of
                Inl e \<Rightarrow> Inl e
              | Inr result \<Rightarrow> Inr (result \<lparr> model_name := name, timestamp := now \<rparr>))))"

definition build_chain_plain_json_for_deepseek ::
  "(string \<Rightarrow> 'j option) \<Rightarrow> ('j \<Rightarrow> fields option) \<Rightarrow> (string \<Rightarrow> exn + string)
     \<Rightarrow> string \<Rightarrow> string \<Rightarrow> string \<Rightarrow> exn + ScoreOutput" where
  "build_chain_plain_json_for_deepseek loads to_fields llm name now player_summary_markdown =
     (case llm player_summary_markdown of
        Inl e \<Rightarrow> Inl e
      | Inr content \<Rightarrow>
         (case extract_json_object loads (strip_think_blocks content) of
            Inl e \<Rightarrow> Inl e
          | Inr data_raw \<Rightarrow>
             (case model_validate to_fields data_raw of
                Inl e \<Rightarrow> Inl e
              | Inr result \<Rightarrow> Inr (result \<lparr> model_name := name, timestamp := now \<rparr>))))"

subsection \<open>The preamble-stripping path\<close>

text \<open>
  C4 (amended). The stripping removes every \<open><think>...</think>\<close> region and every
  lone marker, whatever the case of the letters and wherever they stand, also inside
  the JSON text. So for a reply made of one marked region (an opening marker, a body
  without a closing marker, a closing marker) or of one lone marker, followed by a valid
  JSON object whose text contains no marker, the stripped reply is exactly the object
  text, the preamble-stripping path recovers the same object that plain extraction
  recovers from the reply without the preamble, and the DeepSeek adapter returns what
  the plain-JSON adapter returns on the reply without the preamble. A marked region
  at the start of any reply is removed whole, so several regions in a row go one
  after the other.
\<close>

theorem strip_preamble_recovers_json:
  "(py_lower opn = think_open \<and> py_lower cls = think_close \<and> \<not> has_tag think_close body
     \<and> \<not> has_tag think_open obj \<and> \<not> has_tag think_close obj \<and> loads obj = Some v
     \<longrightarrow> strip_think_blocks (opn @ body @ cls @ obj) = obj
         \<and> extract_json_object loads (strip_think_blocks (opn @ body @ cls @ obj))
             = extract_json_object loads obj
         \<and> extract_json_object loads (strip_think_blocks (opn @ body @ cls @ obj)) = Inr v
         \<and> build_chain_plain_json_for_deepseek loads to_fields
               (\<lambda>md. Inr (opn @ body @ cls @ obj)) name now md
             = build_chain_plain_json loads to_fields (\<lambda>md. Inr obj) name now md)
   \<and> ((py_lower m = think_open \<or> py_lower m = think_close)
     \<and> \<not> has_tag think_open obj \<and> \<not> has_tag think_close obj \<and> loads obj = Some v
     \<longrightarrow> strip_think_blocks (m @ obj) = obj
         \<and> extract_json_object loads (strip_think_blocks (m @ obj))
             = extract_json_object loads obj
         \<and> extract_json_object loads (strip_think_blocks (m @ obj)) = Inr v
         \<and> build_chain_plain_json_for_deepseek loads to_fields (\<lambda>md. Inr (m @ obj)) name now md
             = build_chain_plain_json loads to_fields (\<lambda>md. Inr obj) name now md)
   \<and> (py_lower opn = think_open \<and> py_lower cls = think_close \<and> \<not> has_tag think_close body
     \<longrightarrow> strip_think_blocks (opn @ body @ cls @ rest) = strip_think_blocks rest)"
proof -
  have ex: "loads obj = Some v \<Longrightarrow> extract_json_object loads obj = Inr v"
    by (simp add: extract_json_object_def)
  have block: "py_lower opn = think_open \<and> py_lower cls = think_close
     \<and> \<not> has_tag think_close body
     \<and> \<not> has_tag think_open obj \<and> \<not> has_tag think_close obj \<and> loads obj = Some v
     \<longrightarrow> strip_think_blocks (opn @ body @ cls @ obj) = obj
         \<and> extract_json_object loads (strip_think_blocks (opn @ body @ cls @ obj))
             = extract_json_object loads obj
         \<and> extract_json_object loads (strip_think_blocks (opn @ body @ cls @ obj)) = Inr v
         \<and> build_chain_plain_json_for_deepseek loads to_fields
               (\<lambda>md. Inr (opn @ body @ cls @ obj)) name now md
             = build_chain_plain_json loads to_fields (\<lambda>md. Inr obj) name now md"
  proof
    assume h: "py_lower opn = think_open \<and> py_lower cls = think_close
     \<and> \<not> has_tag think_close body
     \<and> \<not> has_tag think_open obj \<and> \<not> has_tag think_close obj \<and> loads obj = Some v"
    then have s: "strip_think_blocks (opn @ body @ cls @ obj) = obj"
      by (intro strip_block) simp_all
    from h have "extract_json_object loads obj = Inr v"
      by (intro ex) simp
    with s show "strip_think_blocks (opn @ body @ cls @ obj) = obj
         \<and> extract_json_object loads (strip_think_blocks (opn @ body @ cls @ obj))
             = extract_json_object loads obj
         \<and> extract_json_object loads (strip_think_blocks (opn @ body @ cls @ obj)) = Inr v
         \<and> build_chain_plain_json_for_deepseek loads to_fields
               (\<lambda>md. Inr (opn @ body @ cls @ obj)) name now md
             = build_chain_plain_json loads to_fields (\<lambda>md. Inr obj) name now md"
      by (simp add: build_chain_plain_json_for_deepseek_def build_chain_plain_json_def)
  qed
  have lone: "(py_lower m = think_open \<or> py_lower m = think_close)
     \<and> \<not> has_tag think_open obj \<and> \<not> has_tag think_close obj \<and> loads obj = Some v
     \<longrightarrow> strip_think_blocks (m @ obj) = obj
         \<and> extract_json_object loads (strip_think_blocks (m @ obj))
             = extract_json_object loads obj
         \<and> extract_json_object loads (strip_think_blocks (m @ obj)) = Inr v
         \<and> build_chain_plain_json_for_deepseek loads to_fields (\<lambda>md. Inr (m @ obj)) name now md
             = build_chain_plain_json loads to_fields (\<lambda>md. Inr obj) name now md"
  proof
    assume h: "(py_lower m = think_open \<or> py_lower m = think_close)
     \<and> \<not> has_tag think_open obj \<and> \<not> has_tag think_close obj \<and> loads obj = Some v"
    then have s: "strip_think_blocks (m @ obj) = obj"
      using strip_lone_open [of m obj] strip_lone_close [of m obj] by blast
    from h have "extract_json_object loads obj = Inr v"
      by (intro ex) simp
    with s show "strip_think_blocks (m @ obj) = obj
         \<and> extract_json_object loads (strip_think_blocks (m @ obj))
             = extract_json_object loads obj
         \<and> extract_json_object loads (strip_think_blocks (m @ obj)) = Inr v
         \<and> build_chain_plain_json_for_deepseek loads to_fields (\<lambda>md. Inr (m @ obj)) name now md
             = build_chain_plain_json loads to_fields (\<lambda>md. Inr obj) name now md"
      by (simp add: build_chain_plain_json_for_deepseek_def build_chain_plain_json_def)
  qed
  have peel: "py_lower opn = think_open \<and> py_lower cls = think_close
     \<and> \<not> has_tag think_close body
     \<longrightarrow> strip_think_blocks (opn @ body @ cls @ rest) = strip_think_blocks rest"
    using strip_block_any [of opn cls body rest] by blast
  from block lone peel show ?thesis
    by (intro conjI)
qed

theorem strip_preamble_recovers_json_witness:
  "py_lower ''<THINK>'' = think_open \<and> py_lower ''</Think>'' = think_close
   \<and> \<not> has_tag think_close ''weigh {pace} first''
   \<and> \<not> has_tag think_open ''{\"current_rating\":7}''
   \<and> \<not> has_tag think_close ''{\"current_rating\":7}''
   \<and> json_loads ''{\"current_rating\":7}'' = Some (JObj [(''current_rating'', JNum ''7'')])
   \<and> strip_think_blocks (''<THINK>'' @ ''weigh {pace} first'' @ ''</Think>'' @ ''{\"current_rating\":7}'')
       = ''{\"current_rating\":7}''
   \<and> extract_json_object json_loads
        (strip_think_blocks (''<THINK>'' @ ''weigh {pace} first'' @ ''</Think>'' @ ''{\"current_rating\":7}''))
       = Inr (JObj [(''current_rating'', JNum ''7'')])
   \<and> strip_think_blocks (''</think>'' @ ''{\"current_rating\":7}'') = ''{\"current_rating\":7}''
   \<and> extract_json_object json_loads (strip_think_blocks (''</think>'' @ ''{\"current_rating\":7}''))
       = Inr (JObj [(''current_rating'', JNum ''7'')])"
proof -
  let ?obj = "''{\"current_rating\":7}''"
  let ?v = "JObj [(''current_rating'', JNum ''7'')]"
  have h: "py_lower ''<THINK>'' = think_open \<and> py_lower ''</Think>'' = think_close
     \<and> \<not> has_tag think_close ''weigh {pace} first''
     \<and> \<not> has_tag think_open ?obj \<and> \<not> has_tag think_close ?obj \<and> json_loads ?obj = Some ?v"
    by code_simp
  have l: "py_lower ''</think>'' = think_open \<or> py_lower ''</think>'' = think_close"
    by code_simp
  from strip_preamble_recovers_json
         [of "''<THINK>''" "''</Think>''" "''weigh {pace} first''" ?obj json_loads ?v] h
  have a: "strip_think_blocks (''<THINK>'' @ ''weigh {pace} first'' @ ''</Think>'' @ ?obj) = ?obj
     \<and> extract_json_object json_loads
          (strip_think_blocks (''<THINK>'' @ ''weigh {pace} first'' @ ''</Think>'' @ ?obj)) = Inr ?v"
    by blast
  from strip_preamble_recovers_json [of _ _ _ ?obj json_loads ?v _ _ _ _ "''</think>''"] h l
  have b: "strip_think_blocks (''</think>'' @ ?obj) = ?obj
     \<and> extract_json_object json_loads (strip_think_blocks (''</think>'' @ ?obj)) = Inr ?v"
    by blast
  from h a b show ?thesis
    by blast
qed

theorem strip_preamble_counterexample:
  "json_loads ''{\"r\":\"uses <think> tags\"}'' = Some (JObj [(''r'', JStr ''uses <think> tags'')])
   \<and> extract_json_object json_loads ''{\"r\":\"uses <think> tags\"}''
       = Inr (JObj [(''r'', JStr ''uses <think> tags'')])
   \<and> strip_think_blocks (''<think>hm</think>'' @ ''{\"r\":\"uses <think> tags\"}'')
       = ''{\"r\":\"uses  tags\"}''
   \<and> extract_json_object json_loads
        (strip_think_blocks (''<think>hm</think>'' @ ''{\"r\":\"uses <think> tags\"}''))
       = Inr (JObj [(''r'', JStr ''uses  tags'')])"
  by code_simp

subsection \<open>Stamping the rating\<close>

text \<open>
  C5. Whatever adapter produced it, a rating that an adapter returns is the validated
  reply with \<open>model_name\<close> replaced by the adapter's configured identifier and
  \<open>timestamp\<close> replaced by the time the client captured: the values the model
  reported in those two fields are overwritten after validation, and every other field
  is the validated one.
\<close>

theorem adapter_stamps_rating:
  "(build_chain structured_llm name now md = Inr r \<longrightarrow>
      model_name r = name \<and> timestamp r = now
      \<and> (\<exists>reply. structured_llm md = Inr reply
             \<and> r = reply \<lparr> model_name := name, timestamp := now \<rparr>))
   \<and> (build_chain_plain_json loads to_fields llm name now md = Inr r \<longrightarrow>
      model_name r = name \<and> timestamp r = now
      \<and> (\<exists>content data_raw validated.
             llm md = Inr content \<and> extract_json_object loads content = Inr data_raw
             \<and> model_validate to_fields data_raw = Inr validated
             \<and> r = validated \<lparr> model_name := name, timestamp := now \<rparr>))
   \<and> (build_chain_plain_json_for_deepseek loads to_fields llm name now md = Inr r \<longrightarrow>
      model_name r = name \<and> timestamp r = now
      \<and> (\<exists>content data_raw validated.
             llm md = Inr content
             \<and> extract_json_object loads (strip_think_blocks content) = Inr data_raw
             \<and> model_validate to_fields data_raw = Inr validated
             \<and> r = validated \<lparr> model_name := name, timestamp := now \<rparr>))"
proof -
  have a: "build_chain structured_llm name now md = Inr r \<longrightarrow>
      model_name r = name \<and> timestamp r = now
      \<and> (\<exists>reply. structured_llm md = Inr reply
             \<and> r = reply \<lparr> model_name := name, timestamp := now \<rparr>)"
    by (auto simp: build_chain_def split: sum.splits)
  have b: "build_chain_plain_json loads to_fields llm name now md = Inr r \<longrightarrow>
      model_name r = name \<and> timestamp r = now
      \<and> (\<exists>content data_raw validated.
             llm md = Inr content \<and> extract_json_object loads content = Inr data_raw
             \<and> model_validate to_fields data_raw = Inr validated
             \<and> r = validated \<lparr> model_name := name, timestamp := now \<rparr>)"
    by (auto simp: build_chain_plain_json_def split: sum.splits)
  have c: "build_chain_plain_json_for_deepseek loads to_fields llm name now md = Inr r \<longrightarrow>
      model_name r = name \<and> timestamp r = now
      \<and> (\<exists>content data_raw validated.
             llm md = Inr content
             \<and> extract_json_object loads (strip_think_blocks content) = Inr data_raw
             \<and> model_validate to_fields data_raw = Inr validated
             \<and> r = validated \<lparr> model_name := name, timestamp := now \<rparr>)"
    by (auto simp: build_chain_plain_json_for_deepseek_def split: sum.splits)
  from a b c show ?thesis
    by (intro conjI)
qed

theorem adapter_stamps_rating_witness:
  "build_chain
     (\<lambda>md. Inr \<lparr> model_name = ''self-reported'', current_rating = 7, future_rating = 8,
                  current_confidence = 80, future_confidence = 65,
                  reasoning = [''a'', ''b'', ''c''], timestamp = ''yesterday'', version = ''1.0'' \<rparr>)
     ''gpt-5'' ''2025-01-01T00:00:00+00:00'' ''# Report''
     = Inr \<lparr> model_name = ''gpt-5'', current_rating = 7, future_rating = 8,
             current_confidence = 80, future_confidence = 65,
             reasoning = [''a'', ''b'', ''c''], timestamp = ''2025-01-01T00:00:00+00:00'',
             version = ''1.0'' \<rparr>
   \<and> build_chain_plain_json json_loads
     (\<lambda>j. Some \<lparr> f_model_name = Some ''self-reported'', f_current_rating = Some 7,
                  f_future_rating = Some 8, f_current_confidence = Some 80,
                  f_future_confidence = Some 65, f_reasoning = Some [''a'', ''b'', ''c''],
                  f_timestamp = Some ''yesterday'', f_version = None \<rparr>)
     (\<lambda>md. Inr ''Sure: {\"model_name\":\"self-reported\",\"current_rating\":7} ok'')
     ''gpt-oss-120b'' ''2025-01-01T00:00:00+00:00'' ''# Report''
     = Inr \<lparr> model_name = ''gpt-oss-120b'', current_rating = 7, future_rating = 8,
             current_confidence = 80, future_confidence = 65,
             reasoning = [''a'', ''b'', ''c''], timestamp = ''2025-01-01T00:00:00+00:00'',
             version = ''1.0'' \<rparr>
   \<and> build_chain_plain_json_for_deepseek json_loads
     (\<lambda>j. Some \<lparr> f_model_name = Some ''self-reported'', f_current_rating = Some 7,
                  f_future_rating = Some 8, f_current_confidence = Some 80,
                  f_future_confidence = Some 65, f_reasoning = Some [''a'', ''b'', ''c''],
                  f_timestamp = Some ''yesterday'', f_version = None \<rparr>)
     (\<lambda>md. Inr ''<think>hm</think>{\"model_name\":\"self-reported\",\"current_rating\":7}'')
     ''DeepSeek-R1'' ''2025-01-01T00:00:00+00:00'' ''# Report''
     = Inr \<lparr> model_name = ''DeepSeek-R1'', current_rating = 7, future_rating = 8,
             current_confidence = 80, future_confidence = 65,
             reasoning = [''a'', ''b'', ''c''], timestamp = ''2025-01-01T00:00:00+00:00'',
             version = ''1.0'' \<rparr>"
proof -
  let ?reply = "\<lparr> model_name = ''self-reported'', current_rating = 7, future_rating = 8,
                  current_confidence = 80, future_confidence = 65,
                  reasoning = [''a'', ''b'', ''c''], timestamp = ''yesterday'', version = ''1.0'' \<rparr>"
  let ?tf = "\<lambda>j :: json. Some \<lparr> f_model_name = Some ''self-reported'', f_current_rating = Some 7,
                  f_future_rating = Some 8, f_current_confidence = Some 80,
                  f_future_confidence = Some 65, f_reasoning = Some [''a'', ''b'', ''c''],
                  f_timestamp = Some ''yesterday'', f_version = None \<rparr>"
  let ?l1 = "(\<lambda>md. Inr ?reply) :: string \<Rightarrow> exn + ScoreOutput"
  let ?l2 = "(\<lambda>md. Inr ''Sure: {\"model_name\":\"self-reported\",\"current_rating\":7} ok'')
               :: string \<Rightarrow> exn + string"
  let ?l3 = "(\<lambda>md. Inr ''<think>hm</think>{\"model_name\":\"self-reported\",\"current_rating\":7}'')
               :: string \<Rightarrow> exn + string"
  let ?now = "''2025-01-01T00:00:00+00:00''"
  obtain r1 where r1: "build_chain ?l1 ''gpt-5'' ?now ''# Report'' = Inr r1"
    by (simp add: build_chain_def)
  have "\<not> isl (build_chain_plain_json json_loads ?tf ?l2 ''gpt-oss-120b'' ?now ''# Report'')"
    by code_simp
  then obtain r2 where
    r2: "build_chain_plain_json json_loads ?tf ?l2 ''gpt-oss-120b'' ?now ''# Report'' = Inr r2"
    by (cases "build_chain_plain_json json_loads ?tf ?l2 ''gpt-oss-120b'' ?now ''# Report''") auto
  have "\<not> isl (build_chain_plain_json_for_deepseek json_loads ?tf ?l3 ''DeepSeek-R1'' ?now ''# Report'')"
    by code_simp
  then obtain r3 where
    r3: "build_chain_plain_json_for_deepseek json_loads ?tf ?l3 ''DeepSeek-R1'' ?now ''# Report'' = Inr r3"
    by (cases "build_chain_plain_json_for_deepseek json_loads ?tf ?l3 ''DeepSeek-R1'' ?now ''# Report''") auto
  from adapter_stamps_rating [of ?l1 "''gpt-5''" ?now "''# Report''" r1] r1
  have "r1 = ?reply \<lparr> model_name := ''gpt-5'', timestamp := ?now \<rparr>"
    by auto
  with r1 have c1: "build_chain ?l1 ''gpt-5'' ?now ''# Report''
      = Inr (?reply \<lparr> model_name := ''gpt-5'', timestamp := ?now \<rparr>)"
    by simp
  have v: "\<And>d. model_validate ?tf d = Inr (?reply \<lparr> version := ''1.0'' \<rparr>)"
    by (simp add: model_validate_def ScoreOutput_init_def int_field_def reasoning_field_def
          ensure_three_bullets_def)
  from adapter_stamps_rating [of _ "''gpt-oss-120b''" ?now "''# Report''" r2 json_loads ?tf ?l2] r2 v
  have "r2 = ?reply \<lparr> model_name := ''gpt-oss-120b'', timestamp := ?now \<rparr>"
    by auto
  with r2 have c2: "build_chain_plain_json json_loads ?tf ?l2 ''gpt-oss-120b'' ?now ''# Report''
      = Inr (?reply \<lparr> model_name := ''gpt-oss-120b'', timestamp := ?now \<rparr>)"
    by simp
  from adapter_stamps_rating [of _ "''DeepSeek-R1''" ?now "''# Report''" r3 json_loads ?tf ?l3] r3 v
  have "r3 = ?reply \<lparr> model_name := ''DeepSeek-R1'', timestamp := ?now \<rparr>"
    by auto
  with r3 have c3: "build_chain_plain_json_for_deepseek json_loads ?tf ?l3 ''DeepSeek-R1'' ?now ''# Report''
      = Inr (?reply \<lparr> model_name := ''DeepSeek-R1'', timestamp := ?now \<rparr>)"
    by simp
  from c1 c2 c3 show ?thesis
    by simp
qed

section \<open>score\_runner.py: loading the report\<close>

text \<open>
  The file system as the loader sees it: which paths exist, what each resolves to, and
  the text of each file (\<open>None\<close> when reading raises). \<open>Path.exists\<close> and
  \<open>Path.resolve\<close> are taken not to raise, so the handler around the check in the
  fallback directory has nothing to catch.
\<close>

record filesys =
  fs_exists :: "path \<Rightarrow> bool"
  fs_resolve :: "path \<Rightarrow> path"
  fs_read_text :: "path \<Rightarrow> string option"

definition with_name :: "path \<Rightarrow> string \<Rightarrow> exn + path" where
  \<comment> \<open>\<open>Path.with_name\<close>: the new name and the old one must be proper file names\<close>
  "with_name p name =
     (if name = [] \<or> CHR ''/'' \<in> set name \<or> name = ''.'' then Inl (ValueError ''Invalid name'')
      else if snd p = [] then Inl (ValueError ''path has an empty name'')
      else Inr (fst p, name))"

definition wanted_name :: "string \<Rightarrow> string" where
  \<comment> \<open>lines 216 to 223: the file name of the companion\<close>
  "wanted_name name =
     (let stem = py_stem name; suffix = py_suffix name
      in if py_endswith stem ''_extended''
         then take (length stem - length ''_extended'') stem @ suffix
         else stem @ ''_extended'' @ suffix)"

definition separator :: string where
  \<comment> \<open>the text between the two documents: two line feeds, three hyphens, two line feeds\<close>
  "separator = [CHR 0x0A, CHR 0x0A] @ ''---'' @ [CHR 0x0A, CHR 0x0A]"

definition is_other_file :: "filesys \<Rightarrow> path \<Rightarrow> path \<Rightarrow> bool" where
  \<comment> \<open>\<open>c.exists() and c.resolve() != primary_path.resolve()\<close>\<close>
  "is_other_file fsys c primary_path \<longleftrightarrow>
     fs_exists fsys c \<and> fs_resolve fsys c \<noteq> fs_resolve fsys primary_path"

definition load_merged_markdown :: "filesys \<Rightarrow> path \<Rightarrow> exn + string" where
  \<comment> \<open>\<open>_load_merged_markdown\<close>\<close>
  "load_merged_markdown fsys primary_path =
     (let primary_text = (case fs_read_text fsys primary_path of None \<Rightarrow> [] | Some t \<Rightarrow> t)
      in case with_name primary_path (wanted_name (snd primary_path)) of
           Inl e \<Rightarrow> Inl e
         | Inr companion \<Rightarrow>
             let candidate = (butlast (fst primary_path) @ [''player_summaries''],
                              wanted_name (snd primary_path));
                 companion_path =
                   (if is_other_file fsys companion primary_path then Some companion
                    else if is_other_file fsys candidate primary_path then Some candidate
                    else None)
             in Inr (case companion_path of
                       None \<Rightarrow> primary_text
                     | Some cp \<Rightarrow>
                         (case fs_read_text fsys cp of
                            Some companion_text \<Rightarrow> primary_text @ separator @ companion_text
                          | None \<Rightarrow> primary_text)))"

subsection \<open>The companion and the merged text\<close>








lemma load_merged_markdown_found:
  assumes "with_name p (wanted_name (snd p)) = Inr c"
  shows "load_merged_markdown fsys p =
     Inr (let primary_text = (case fs_read_text fsys p of None \<Rightarrow> [] | Some t \<Rightarrow> t);
              candidate = (butlast (fst p) @ [''player_summaries''], wanted_name (snd p));
              companion_path =
                (if is_other_file fsys c p then Some c
                 else if is_other_file fsys candidate p then Some candidate else None)
          in case companion_path of
               None \<Rightarrow> primary_text
             | Some cp \<Rightarrow>
                 (case fs_read_text fsys cp of
                    Some companion_text \<Rightarrow> primary_text @ separator @ companion_text
                  | None \<Rightarrow> primary_text))"
  using assms by (simp add: load_merged_markdown_def Let_def)




text \<open>
  C10. When a companion has been located, in the primary's directory or in the
  fallback directory, and reading it raises, the loader returns the primary text
  alone: no separator, no companion text, no error.
\<close>

theorem load_merged_markdown_unreadable_companion:
  "(with_name p (wanted_name (snd p)) = Inr c \<and> is_other_file fsys c p
      \<and> fs_read_text fsys c = None
      \<longrightarrow> load_merged_markdown fsys p
          = Inr (case fs_read_text fsys p of None \<Rightarrow> [] | Some t \<Rightarrow> t))
   \<and> (with_name p (wanted_name (snd p)) = Inr c \<and> \<not> is_other_file fsys c p
      \<and> is_other_file fsys (butlast (fst p) @ [''player_summaries''], wanted_name (snd p)) p
      \<and> fs_read_text fsys (butlast (fst p) @ [''player_summaries''], wanted_name (snd p)) = None
      \<longrightarrow> load_merged_markdown fsys p
          = Inr (case fs_read_text fsys p of None \<Rightarrow> [] | Some t \<Rightarrow> t))"
  by (simp add: load_merged_markdown_found Let_def)

theorem load_merged_markdown_unreadable_companion_witness:
  "is_other_file
     \<lparr> fs_exists = (\<lambda>q. q \<in> {([''data'', ''v2''], ''b.md''), ([''data'', ''v2''], ''b_extended.md'')}),
       fs_resolve = (\<lambda>q. q),
       fs_read_text = [([''data'', ''v2''], ''b.md'') \<mapsto> ''X''] \<rparr>
     ([''data'', ''v2''], ''b_extended.md'') ([''data'', ''v2''], ''b.md'')
   \<and> load_merged_markdown
     \<lparr> fs_exists = (\<lambda>q. q \<in> {([''data'', ''v2''], ''b.md''), ([''data'', ''v2''], ''b_extended.md'')}),
       fs_resolve = (\<lambda>q. q),
       fs_read_text = [([''data'', ''v2''], ''b.md'') \<mapsto> ''X''] \<rparr>
     ([''data'', ''v2''], ''b.md'') = Inr ''X''
   \<and> is_other_file
     \<lparr> fs_exists = (\<lambda>q. q \<in> {([''data'', ''v2''], ''b.md''),
                                ([''data'', ''player_summaries''], ''b_extended.md'')}),
       fs_resolve = (\<lambda>q. q),
       fs_read_text = [([''data'', ''v2''], ''b.md'') \<mapsto> ''X''] \<rparr>
     ([''data'', ''player_summaries''], ''b_extended.md'') ([''data'', ''v2''], ''b.md'')
   \<and> load_merged_markdown
     \<lparr> fs_exists = (\<lambda>q. q \<in> {([''data'', ''v2''], ''b.md''),
                                ([''data'', ''player_summaries''], ''b_extended.md'')}),
       fs_resolve = (\<lambda>q. q),
       fs_read_text = [([''data'', ''v2''], ''b.md'') \<mapsto> ''X''] \<rparr>
     ([''data'', ''v2''], ''b.md'') = Inr ''X''"
proof -
  let ?p = "([''data'', ''v2''], ''b.md'')"
  let ?c = "([''data'', ''v2''], ''b_extended.md'')"
  let ?fb = "([''data'', ''player_summaries''], ''b_extended.md'')"
  let ?f1 = "\<lparr> fs_exists = (\<lambda>q. q \<in> {?p, ?c}), fs_resolve = (\<lambda>q. q),
               fs_read_text = [?p \<mapsto> ''X''] \<rparr>"
  let ?f2 = "\<lparr> fs_exists = (\<lambda>q. q \<in> {?p, ?fb}), fs_resolve = (\<lambda>q. q),
               fs_read_text = [?p \<mapsto> ''X''] \<rparr>"
  have w: "wanted_name ''b.md'' = ''b_extended.md''"
    by code_simp
  then have wn: "with_name ?p (wanted_name (snd ?p)) = Inr ?c"
    by (simp add: with_name_def)
  have h1: "is_other_file ?f1 ?c ?p \<and> fs_read_text ?f1 ?c = None"
    by (simp add: is_other_file_def)
  from load_merged_markdown_unreadable_companion [of ?p ?c ?f1] wn h1
  have "load_merged_markdown ?f1 ?p
      = Inr (case fs_read_text ?f1 ?p of None \<Rightarrow> [] | Some t \<Rightarrow> t)"
    by blast
  then have c1: "load_merged_markdown ?f1 ?p = Inr ''X''"
    by simp
  have h2: "\<not> is_other_file ?f2 ?c ?p
      \<and> is_other_file ?f2 (butlast (fst ?p) @ [''player_summaries''], wanted_name (snd ?p)) ?p
      \<and> fs_read_text ?f2 (butlast (fst ?p) @ [''player_summaries''], wanted_name (snd ?p)) = None"
    by (simp add: is_other_file_def w)
  from load_merged_markdown_unreadable_companion [of ?p ?c ?f2] wn h2
  have "load_merged_markdown ?f2 ?p
      = Inr (case fs_read_text ?f2 ?p of None \<Rightarrow> [] | Some t \<Rightarrow> t)"
    by blast
  then have c2: "load_merged_markdown ?f2 ?p = Inr ''X''"
    by simp
  from h2 w have h2': "is_other_file ?f2 ?fb ?p"
    by simp
  from h1 have h1': "is_other_file ?f1 ?c ?p" ..
  from h1' c1 h2' c2 show ?thesis
    by (intro conjI)
qed

section \<open>score\_runner.py: the orchestrator\<close>










subsection \<open>Gathering all outcomes\<close>





















end
